theory Spec2Isabelle
  imports Main "HOL-Library.Word" "HOL-Library.List_Lexorder" "HOL-Library.Multiset"
begin

unbundle bit_operations_syntax

section \<open>JavaScript data\<close>

text \<open>
  The library is the class \<open>ShopifyToken\<close> of \<open>index.js\<close>. The repository holds three
  revisions of that file; the model follows the latest one (constant-time comparison,
  \<open>accessMode\<close>, \<open>agent\<close>, suffix check on the shop name), which is the one the
  specification describes. Two behaviours of the revision before it that differ on a point
  a claim touches are modelled beside it, under names ending in \<open>_v2\<close>.

  A JavaScript string is a sequence of UTF-16 code units, a \<open>Buffer\<close> a sequence of bytes.
\<close>

type_synonym byte = "8 word"
type_synonym jsstring = "16 word list"

definition ascii :: "string \<Rightarrow> jsstring" where
  \<comment> \<open>the string literal with these ASCII characters\<close>
  "ascii s = map (\<lambda>c. word_of_nat (of_char c)) s"

text \<open>An \<open>Error\<close> object with the two fields that \<open>getAccessToken\<close> may attach to it.\<close>

record jserror =
  message :: jsstring
  statusCode :: "nat option"
  responseBody :: "jsstring option"

definition Error :: "string \<Rightarrow> jserror" where
  \<comment> \<open>\<open>new Error(msg)\<close>: no \<open>statusCode\<close>, no \<open>responseBody\<close>\<close>
  "Error msg = \<lparr>message = ascii msg, statusCode = None, responseBody = None\<rparr>"

section \<open>The constructor\<close>

text \<open>
  \<open>scopes\<close> is a string or an array of strings. An option that is not a key of the options
  object is \<open>None\<close>. The agent is an opaque handle of the platform.
\<close>

datatype scopes = ScopeString jsstring | ScopeArray "jsstring list"

typedecl agent

record options =
  opt_sharedSecret :: "jsstring option"
  opt_redirectUri :: "jsstring option"
  opt_apiKey :: "jsstring option"
  opt_accessMode :: "jsstring option"
  opt_scopes :: "scopes option"
  opt_timeout :: "nat option"
  opt_agent :: "agent option"

record ShopifyToken =
  accessMode :: jsstring
  scopes :: scopes
  timeout :: nat
  sharedSecret :: jsstring
  redirectUri :: jsstring
  apiKey :: jsstring
  agent :: "agent option"

definition falsy :: "jsstring option \<Rightarrow> bool" where
  \<comment> \<open>\<open>!x\<close> for \<open>x\<close> a string or \<open>undefined\<close>: the empty string is falsy too\<close>
  "falsy x = (case x of None \<Rightarrow> True | Some s \<Rightarrow> s = [])"

definition constructor :: "options option \<Rightarrow> jserror + ShopifyToken" where
  "constructor opts =
     (case opts of
        None \<Rightarrow> Inl (Error ''Missing or invalid options'')
      | Some options \<Rightarrow>
          if falsy (opt_sharedSecret options)
             \<or> falsy (opt_redirectUri options)
             \<or> falsy (opt_apiKey options)
          then Inl (Error ''Missing or invalid options'')
          else Inr \<lparr>
            accessMode = (case opt_accessMode options of Some m \<Rightarrow> m | None \<Rightarrow> []),
            scopes = (case opt_scopes options of Some s \<Rightarrow> s
                      | None \<Rightarrow> ScopeString (ascii ''read_content'')),
            timeout = (case opt_timeout options of Some t \<Rightarrow> t | None \<Rightarrow> 60000),
            sharedSecret = the (opt_sharedSecret options),
            redirectUri = the (opt_redirectUri options),
            apiKey = the (opt_apiKey options),
            agent = opt_agent options\<rparr>)"

section \<open>The authorization URL\<close>

definition endsWith :: "jsstring \<Rightarrow> jsstring \<Rightarrow> bool" where
  \<comment> \<open>\<open>String.prototype.endsWith\<close>\<close>
  "endsWith s suf =
     (length suf \<le> length s \<and> drop (length s - length suf) s = suf)"

fun join :: "jsstring \<Rightarrow> jsstring list \<Rightarrow> jsstring" where
  \<comment> \<open>\<open>Array.prototype.join\<close> on an array of strings\<close>
  "join sep [] = []"
| "join sep [x] = x"
| "join sep (x # y # ys) = x @ sep @ join sep (y # ys)"

text \<open>
  The object that \<open>generateAuthUrl\<close> hands to the platform's \<open>url.format\<close>, which
  writes \<open>hostname\<close> as the host of the URL. The query keeps its keys in insertion order.
\<close>

record urlObject =
  pathname :: jsstring
  hostname :: jsstring
  protocol :: jsstring
  query :: "(jsstring \<times> jsstring) list"

definition scope_param :: "scopes \<Rightarrow> jsstring" where
  \<comment> \<open>\<open>Array.isArray(scopes) ? scopes.join(',') : scopes\<close>\<close>
  "scope_param s = (case s of ScopeArray xs \<Rightarrow> join (ascii '','') xs | ScopeString x \<Rightarrow> x)"

definition scopes_falsy :: "scopes option \<Rightarrow> bool" where
  \<comment> \<open>an array, even an empty one, is truthy\<close>
  "scopes_falsy s = (case s of None \<Rightarrow> True | Some (ScopeString x) \<Rightarrow> x = [] | Some (ScopeArray _) \<Rightarrow> False)"

definition myshopify :: jsstring where
  "myshopify = ascii ''.myshopify.com''"

definition shop_hostname :: "jsstring \<Rightarrow> jsstring" where
  \<comment> \<open>\<open>shop.endsWith('.myshopify.com') ? shop : `${shop}.myshopify.com`\<close>\<close>
  "shop_hostname shop = (if endsWith shop myshopify then shop else shop @ myshopify)"

definition shop_hostname_v2 :: "jsstring \<Rightarrow> jsstring" where
  \<comment> \<open>the two earlier revisions: \<open>`${shop}.myshopify.com`\<close>\<close>
  "shop_hostname_v2 shop = shop @ myshopify"

text \<open>
  \<open>generateNonce\<close> reads 16 random bytes; the value it would return is the argument
  \<open>fresh\<close>.
\<close>

definition generateAuthUrl ::
  "ShopifyToken \<Rightarrow> jsstring \<Rightarrow> jsstring \<Rightarrow> scopes option \<Rightarrow> jsstring option \<Rightarrow> jsstring option
     \<Rightarrow> urlObject" where
  "generateAuthUrl this fresh shop scopes_arg nonce accessMode_arg =
     (let scopes1 = (if scopes_falsy scopes_arg then scopes this else the scopes_arg);
          accessMode1 = (if falsy accessMode_arg then accessMode this else the accessMode_arg);
          query0 = [(ascii ''scope'', scope_param scopes1),
                    (ascii ''state'', if falsy nonce then fresh else the nonce),
                    (ascii ''redirect_uri'', redirectUri this),
                    (ascii ''client_id'', apiKey this)];
          query1 = (if accessMode1 \<noteq> []
                    then query0 @ [(ascii ''grant_options[]'', accessMode1)] else query0)
      in \<lparr>pathname = ascii ''/admin/oauth/authorize'',
          hostname = shop_hostname shop,
          protocol = ascii ''https:'',
          query = query1\<rparr>)"

section \<open>The token exchange\<close>

text \<open>
  \<open>getAccessToken\<close> sends one request, arms one timer and registers handlers for the
  request's \<open>response\<close> and \<open>error\<close> events and for the response's \<open>data\<close> and
  \<open>end\<close> events. The platform then calls the handlers, in an order the code does not
  control: a run is a list of events. \<open>JSON.parse\<close> is the platform's; it is the parameter
  \<open>parse\<close>, \<open>None\<close> where it throws.
\<close>

datatype 'j outcome = Resolved 'j | Rejected jserror

datatype event =
    Timeout
  | Response nat
  | Data jsstring
  | End
  | RequestError jserror

text \<open>
  \<open>timer\<close>: the variable \<open>timer\<close> holds the handle (it is \<open>null\<close> once the timeout
  has run). \<open>scheduled\<close>: the platform still has the timeout to run (it has neither run
  nor been cleared by \<open>clearTimeout\<close>). \<open>aborted\<close>: \<open>request.abort()\<close> was called.
  \<open>response\<close>: the status and the body buffered so far, once the \<open>response\<close> event has
  registered the \<open>data\<close> and \<open>end\<close> handlers. \<open>calls\<close>: every call of \<open>resolve\<close> or
  \<open>reject\<close>, oldest first (in the first revision, every call of the callback \<open>fn\<close>).
\<close>

record 'j exchange =
  timer :: bool
  scheduled :: bool
  aborted :: bool
  response :: "(nat \<times> jsstring) option"
  calls :: "'j outcome list"

definition promise :: "'j exchange \<Rightarrow> 'j outcome option" where
  \<comment> \<open>a promise is settled by the first call of \<open>resolve\<close> or \<open>reject\<close>; later calls do nothing\<close>
  "promise s = (case calls s of [] \<Rightarrow> None | x # _ \<Rightarrow> Some x)"

definition resolve :: "'j \<Rightarrow> 'j exchange \<Rightarrow> 'j exchange" where
  "resolve v s = s\<lparr>calls := calls s @ [Resolved v]\<rparr>"

definition reject :: "jserror \<Rightarrow> 'j exchange \<Rightarrow> 'j exchange" where
  "reject e s = s\<lparr>calls := calls s @ [Rejected e]\<rparr>"

definition clearTimeout :: "'j exchange \<Rightarrow> 'j exchange" where
  "clearTimeout s = s\<lparr>scheduled := False\<rparr>"

definition on_timeout :: "'j exchange \<Rightarrow> 'j exchange" where
  \<comment> \<open>the platform runs the callback only while the timeout is scheduled\<close>
  "on_timeout s =
     (if scheduled s
      then reject (Error ''Request timed out'')
             (s\<lparr>scheduled := False, aborted := True, timer := False\<rparr>)
      else s)"

definition on_response :: "nat \<Rightarrow> 'j exchange \<Rightarrow> 'j exchange" where
  "on_response status s = s\<lparr>response := Some (status, [])\<rparr>"

definition on_data :: "jsstring \<Rightarrow> 'j exchange \<Rightarrow> 'j exchange" where
  "on_data chunk s =
     (case response s of
        None \<Rightarrow> s
      | Some (status, body) \<Rightarrow> s\<lparr>response := Some (status, body @ chunk)\<rparr>)"

definition on_end :: "(jsstring \<Rightarrow> 'j option) \<Rightarrow> 'j exchange \<Rightarrow> 'j exchange" where
  "on_end parse s =
     (case response s of
        None \<Rightarrow> s
      | Some (status, body) \<Rightarrow>
          if \<not> timer s then s
          else let s1 = clearTimeout s in
            if status \<noteq> 200
            then reject ((Error ''Failed to get Shopify access token'')
                   \<lparr>statusCode := Some status, responseBody := Some body\<rparr>) s1
            else (case parse body of
                    None \<Rightarrow> reject ((Error ''Failed to parse the response body'')
                             \<lparr>statusCode := Some status, responseBody := Some body\<rparr>) s1
                  | Some v \<Rightarrow> resolve v s1))"

definition on_error :: "jserror \<Rightarrow> 'j exchange \<Rightarrow> 'j exchange" where
  "on_error err s = (if \<not> timer s then s else reject err (clearTimeout s))"

fun step :: "(jsstring \<Rightarrow> 'j option) \<Rightarrow> event \<Rightarrow> 'j exchange \<Rightarrow> 'j exchange" where
  "step parse Timeout s = on_timeout s"
| "step parse (Response status) s = on_response status s"
| "step parse (Data chunk) s = on_data chunk s"
| "step parse End s = on_end parse s"
| "step parse (RequestError err) s = on_error err s"

fun run :: "(jsstring \<Rightarrow> 'j option) \<Rightarrow> event list \<Rightarrow> 'j exchange \<Rightarrow> 'j exchange" where
  "run parse [] s = s"
| "run parse (e # es) s = run parse es (step parse e s)"

definition getAccessToken :: "'j exchange" where
  \<comment> \<open>the state when \<open>getAccessToken\<close> returns: request sent, timer armed, nothing settled\<close>
  "getAccessToken =
     \<lparr>timer = True, scheduled = True, aborted = False, response = None, calls = []\<rparr>"

definition streaming :: "event \<Rightarrow> bool" where
  \<comment> \<open>an event that neither completes the response nor fails the request nor fires the timer\<close>
  "streaming e = (case e of Response _ \<Rightarrow> True | Data _ \<Rightarrow> True | _ \<Rightarrow> False)"

text \<open>The three kinds of state a run can be in.\<close>

definition pending :: "'j exchange \<Rightarrow> bool" where
  "pending s = (timer s \<and> scheduled s \<and> \<not> aborted s \<and> calls s = [])"

definition timed_out :: "'j exchange \<Rightarrow> bool" where
  "timed_out s =
     (\<not> timer s \<and> \<not> scheduled s \<and> aborted s \<and> calls s = [Rejected (Error ''Request timed out'')])"

definition completed :: "'j exchange \<Rightarrow> bool" where
  "completed s = (timer s \<and> \<not> scheduled s \<and> \<not> aborted s \<and> calls s \<noteq> [])"

section \<open>The signature verifier\<close>

text \<open>
  The values of a parsed query string: strings and arrays, and the other scalars that
  \<open>String\<close> turns into text. A number is an integer here (its text is its decimal
  numeral); objects other than arrays are left out.
\<close>

datatype jsvalue =
    JString jsstring
  | JNumber int
  | JBoolean bool
  | JNull
  | JUndefined
  | JArray "jsvalue list"

text \<open>
  The query object: its own enumerable properties, in the order of \<open>Object.keys\<close>. A key
  occurs once.
\<close>

type_synonym jsobject = "(jsstring \<times> jsvalue) list"

definition Object_keys :: "jsobject \<Rightarrow> jsstring list" where
  "Object_keys obj = map fst obj"

definition get :: "jsobject \<Rightarrow> jsstring \<Rightarrow> jsvalue" where
  \<comment> \<open>\<open>obj[key]\<close>: \<open>undefined\<close> for a key the object does not have\<close>
  "get obj key = (case map_of obj key of None \<Rightarrow> JUndefined | Some v \<Rightarrow> v)"

function decimal :: "nat \<Rightarrow> jsstring" where
  "decimal n =
     (if n < 10 then [word_of_nat (48 + n)]
      else decimal (n div 10) @ [word_of_nat (48 + n mod 10)])"
  by pat_completeness auto
termination
  by (relation "measure (\<lambda>n. n)") auto

declare decimal.simps [simp del]

definition number_text :: "int \<Rightarrow> jsstring" where
  "number_text i = (if i < 0 then ascii ''-'' @ decimal (nat (- i)) else decimal (nat i))"

fun String :: "jsvalue \<Rightarrow> jsstring" where
  \<comment> \<open>\<open>String(v)\<close>; an array is joined with commas, \<open>null\<close> and \<open>undefined\<close> elements as
      empty strings\<close>
  "String (JString s) = s"
| "String (JNumber i) = number_text i"
| "String (JBoolean b) = (if b then ascii ''true'' else ascii ''false'')"
| "String JNull = ascii ''null''"
| "String JUndefined = ascii ''undefined''"
| "String (JArray xs) =
     join (ascii '','')
       (map (\<lambda>x. if x = JNull \<or> x = JUndefined then [] else String x) xs)"

definition array_join :: "jsstring \<Rightarrow> jsvalue list \<Rightarrow> jsstring" where
  \<comment> \<open>\<open>Array.prototype.join\<close> on an array of values\<close>
  "array_join sep xs =
     join sep (map (\<lambda>x. if x = JNull \<or> x = JUndefined then [] else String x) xs)"

definition percent :: "16 word \<Rightarrow> jsstring" where
  \<comment> \<open>\<open>encodeURIComponent\<close> on one of the characters \<open>%\<close>, \<open>&\<close>, \<open>=\<close>: a percent sign and
      the two upper-case hexadecimal digits of the code\<close>
  "percent c =
     (let digit = (\<lambda>d::nat. word_of_nat (if d < 10 then 48 + d else 55 + d) :: 16 word)
      in [0x25, digit (unat c div 16), digit (unat c mod 16)])"

definition replace :: "(16 word \<Rightarrow> bool) \<Rightarrow> (16 word \<Rightarrow> jsstring) \<Rightarrow> jsstring \<Rightarrow> jsstring" where
  \<comment> \<open>\<open>input.replace(/[...]/g, f)\<close> for a class of single characters\<close>
  "replace cls f input = concat (map (\<lambda>c. if cls c then f c else [c]) input)"

definition encodeValue :: "jsstring \<Rightarrow> jsstring" where
  "encodeValue input = replace (\<lambda>c. c = 0x25 \<or> c = 0x26) percent input"

definition encodeKey :: "jsstring \<Rightarrow> jsstring" where
  "encodeKey input = replace (\<lambda>c. c = 0x25 \<or> c = 0x26 \<or> c = 0x3D) percent input"

definition value_text :: "jsvalue \<Rightarrow> jsstring" where
  \<comment> \<open>\<open>Array.isArray(v) ? `["${v.join('", "')}"]` : String(v)\<close>\<close>
  \<open>value_text v =
     (case v of
        JArray xs \<Rightarrow> ascii ''["'' @ array_join (ascii ''", "'') xs @ ascii ''"]''
      | _ \<Rightarrow> String v)\<close>

definition pair_text :: "jsobject \<Rightarrow> jsstring \<Rightarrow> jsstring" where
  \<comment> \<open>\<open>`${encodeKey(key)}=${encodeValue(value)}`\<close>\<close>
  "pair_text obj key = encodeKey key @ ascii ''='' @ encodeValue (value_text (get obj key))"

definition signing_pairs :: "jsobject \<Rightarrow> jsstring list" where
  \<comment> \<open>the constant \<open>pairs\<close>; the default \<open>sort\<close> of JavaScript compares strings code unit
      by code unit\<close>
  "signing_pairs obj =
     sort (map (pair_text obj)
       (filter (\<lambda>key. key \<noteq> ascii ''signature'' \<and> key \<noteq> ascii ''hmac'') (Object_keys obj)))"

definition signing_string :: "jsobject \<Rightarrow> jsstring" where
  \<comment> \<open>\<open>pairs.join('&')\<close>\<close>
  "signing_string obj = join (ascii ''&'') (signing_pairs obj)"

text \<open>
  UTF-8, the encoding in which \<open>Buffer.byteLength\<close> counts a string and in which
  \<open>createHmac\<close> and \<open>update\<close> read one. A surrogate pair is one code point of four bytes; a
  surrogate without its partner becomes U+FFFD.
\<close>

definition utf8_code_point :: "nat \<Rightarrow> byte list" where
  "utf8_code_point c =
     (if c < 0x80 then [of_nat c]
      else if c < 0x800 then [of_nat (0xC0 + c div 64), of_nat (0x80 + c mod 64)]
      else if c < 0x10000
        then [of_nat (0xE0 + c div 4096), of_nat (0x80 + c div 64 mod 64), of_nat (0x80 + c mod 64)]
      else [of_nat (0xF0 + c div 262144), of_nat (0x80 + c div 4096 mod 64),
            of_nat (0x80 + c div 64 mod 64), of_nat (0x80 + c mod 64)])"

definition high_surrogate :: "16 word \<Rightarrow> bool" where
  "high_surrogate u = (0xD800 \<le> u \<and> u < 0xDC00)"

definition low_surrogate :: "16 word \<Rightarrow> bool" where
  "low_surrogate u = (0xDC00 \<le> u \<and> u < 0xE000)"

fun utf8 :: "jsstring \<Rightarrow> byte list" where
  "utf8 [] = []"
| "utf8 [u] =
     (if high_surrogate u \<or> low_surrogate u then [0xEF, 0xBF, 0xBD]
      else utf8_code_point (unat u))"
| "utf8 (u # v # r) =
     (if high_surrogate u \<and> low_surrogate v
      then utf8_code_point (0x10000 + (unat u - 0xD800) * 0x400 + (unat v - 0xDC00)) @ utf8 r
      else (if high_surrogate u \<or> low_surrogate u then [0xEF, 0xBF, 0xBD]
            else utf8_code_point (unat u)) @ utf8 (v # r))"

definition Buffer_byteLength :: "jsstring \<Rightarrow> nat" where
  "Buffer_byteLength s = length (utf8 s)"

definition unhex :: "16 word \<Rightarrow> nat option" where
  \<comment> \<open>the value of a hexadecimal digit, in either case\<close>
  "unhex c =
     (if 0x30 \<le> c \<and> c \<le> 0x39 then Some (unat c - 0x30)
      else if 0x61 \<le> c \<and> c \<le> 0x66 then Some (unat c - 0x57)
      else if 0x41 \<le> c \<and> c \<le> 0x46 then Some (unat c - 0x37)
      else None)"

fun Buffer_from_hex :: "jsstring \<Rightarrow> byte list" where
  \<comment> \<open>\<open>Buffer.from(s, 'hex')\<close>: two digits a byte; decoding stops, without an error, at
      the first pair that is not two hexadecimal digits, and a last single character is
      dropped\<close>
  "Buffer_from_hex (a # b # r) =
     (case (unhex a, unhex b) of
        (Some x, Some y) \<Rightarrow> of_nat (16 * x + y) # Buffer_from_hex r
      | _ \<Rightarrow> [])"
| "Buffer_from_hex _ = []"

definition at :: "byte list \<Rightarrow> nat \<Rightarrow> 32 word" where
  \<comment> \<open>\<open>buf[i]\<close> as an operand of \<open>^\<close>: \<open>undefined\<close>, past the end, counts as 0\<close>
  "at buf i = (if i < length buf then ucast (buf ! i) else 0)"

function timingSafeEqual_loop :: "byte list \<Rightarrow> byte list \<Rightarrow> nat \<Rightarrow> 32 word \<Rightarrow> 32 word" where
  "timingSafeEqual_loop a b i result =
     (if i < length a
      then timingSafeEqual_loop a b (i + 1) (result OR (at a i XOR at b i))
      else result)"
  by pat_completeness auto
termination
  by (relation "measure (\<lambda>(a, b, i, result). length a - i)") auto

declare timingSafeEqual_loop.simps [simp del]

definition timingSafeEqual :: "byte list \<Rightarrow> byte list \<Rightarrow> bool" where
  "timingSafeEqual a b = (timingSafeEqual_loop a b 0 0 = 0)"

text \<open>
  \<open>crypto.createHmac('sha256', key).update(text).digest()\<close> is the platform's: the
  parameter \<open>createHmac\<close>, from the bytes of the key and of the text to the digest.
  \<open>verifyHmac_run\<close> returns, with the result, the calls of \<open>createHmac\<close> it made.
\<close>

definition verifyHmac_run ::
  "(byte list \<Rightarrow> byte list \<Rightarrow> byte list) \<Rightarrow> ShopifyToken \<Rightarrow> jsobject
     \<Rightarrow> bool \<times> (byte list \<times> byte list) list" where
  "verifyHmac_run createHmac this obj =
     (let pairs = signing_pairs obj in
      case get obj (ascii ''hmac'') of
        JString hmac \<Rightarrow>
          if Buffer_byteLength hmac \<noteq> 64 then (False, [])
          else
            let key = utf8 (sharedSecret this);
                text = utf8 (join (ascii ''&'') pairs);
                digest = createHmac key text
            in (timingSafeEqual digest (Buffer_from_hex hmac), [(key, text)])
      | _ \<Rightarrow> (False, []))"

definition verifyHmac ::
  "(byte list \<Rightarrow> byte list \<Rightarrow> byte list) \<Rightarrow> ShopifyToken \<Rightarrow> jsobject \<Rightarrow> bool" where
  "verifyHmac createHmac this obj = fst (verifyHmac_run createHmac this obj)"

text \<open>
  The revision before: no check of the \<open>hmac\<close> field, and the digest compared as text,
  \<open>digest('hex') === query.hmac\<close>.
\<close>

definition hex_text :: "byte list \<Rightarrow> jsstring" where
  \<comment> \<open>\<open>digest('hex')\<close>: two lower-case hexadecimal digits a byte\<close>
  "hex_text bytes =
     (let digit = (\<lambda>d::nat. word_of_nat (if d < 10 then 48 + d else 87 + d) :: 16 word)
      in concat (map (\<lambda>b. [digit (unat b div 16), digit (unat b mod 16)]) bytes))"

definition verifyHmac_v2 ::
  "(byte list \<Rightarrow> byte list \<Rightarrow> byte list) \<Rightarrow> ShopifyToken \<Rightarrow> jsobject \<Rightarrow> bool" where
  "verifyHmac_v2 createHmac this obj =
     (JString (hex_text (createHmac (utf8 (sharedSecret this)) (utf8 (signing_string obj)))) =
      get obj (ascii ''hmac''))"

section \<open>Inputs of the examples\<close>

definition test_options :: options where
  \<comment> \<open>the options of the repository's tests\<close>
  "test_options =
     \<lparr>opt_sharedSecret = Some (ascii ''foo''), opt_redirectUri = Some (ascii ''bar''),
      opt_apiKey = Some (ascii ''baz''), opt_accessMode = None, opt_scopes = None,
      opt_timeout = None, opt_agent = None\<rparr>"

definition no_json :: "jsstring \<Rightarrow> unit option" where
  \<comment> \<open>a \<open>JSON.parse\<close> that throws on every text, for runs whose bodies are not JSON\<close>
  "no_json body = None"

definition token_body :: jsstring where
  \<comment> \<open>the response body of the exchange scenario of the specification\<close>
  \<open>token_body = ascii ''{"access_token":"T","scope":"read_content"}''\<close>

definition token_json :: "jsstring \<Rightarrow> (jsstring \<times> jsstring) list option" where
  \<comment> \<open>\<open>JSON.parse\<close> on that one text: an object with two string fields\<close>
  "token_json body =
     (if body = token_body
      then Some [(ascii ''access_token'', ascii ''T''), (ascii ''scope'', ascii ''read_content'')]
      else None)"

definition test_instance :: ShopifyToken where
  \<comment> \<open>the instance that the constructor makes of \<open>test_options\<close>\<close>
  "test_instance =
     \<lparr>accessMode = [], scopes = ScopeString (ascii ''read_content''), timeout = 60000,
      sharedSecret = ascii ''foo'', redirectUri = ascii ''bar'', apiKey = ascii ''baz'',
      agent = None\<rparr>"

definition authentic_query :: jsobject where
  \<comment> \<open>the query of the test `returns true if the message is authentic'\<close>
  "authentic_query =
     [(ascii ''hmac'',
         JString (ascii ''3d9b9a7918ac20dfd03b6a0af54a58f0a47980145ae81a37f41597a1e34b528d'')),
      (ascii ''state'', JString (ascii ''b77827e928ee8eee614b5808d3276c8a'')),
      (ascii ''code'', JString (ascii ''4d732838ad8c22cd1d2dd96f8a403fb7'')),
      (ascii ''shop'', JString (ascii ''qux.myshopify.com'')),
      (ascii ''timestamp'', JString (ascii ''1451929074''))]"

definition array_query :: "jsvalue \<Rightarrow> jsobject" where
  \<comment> \<open>the second query of that test, with the given value for the key \<open>quuz\<close> (the test has
      the array \<open>[1, 2]\<close>)\<close>
  "array_query v =
     [(ascii ''hmac'',
         JString (ascii ''ffe89c5d47dd26297d47b68e6ad14cf4ee6f11a72b3da7c7a0974d0c3959579a'')),
      (ascii ''shop'', JString (ascii ''qux.myshopify.com'')),
      (ascii ''timestamp'', JString (ascii ''1492784493''))]
     @ (ascii ''quuz'', v) # [(ascii ''corge'', JString (ascii ''grault''))]"

definition truncated_query :: jsobject where
  \<comment> \<open>a query whose \<open>hmac\<close> has 64 characters, the last two not hexadecimal\<close>
  "truncated_query =
     [(ascii ''hmac'',
         JString (ascii ''8d711867b1217efe4b1e0937cab0935a1247a5beb41d0920a6ee77dd3b0ca6zz'')),
      (ascii ''shop'', JString (ascii ''qux.myshopify.com'')),
      (ascii ''timestamp'', JString (ascii ''1451929086''))]"

definition astral_query :: jsobject where
  \<comment> \<open>two keys: U+FF5E (one code unit) and U+1F600 (a surrogate pair)\<close>
  "astral_query =
     [([0xFF5E], JString (ascii ''b'')), ([0xD83D, 0xDE00], JString (ascii ''a''))]"

definition example_digests :: "byte list \<Rightarrow> byte list \<Rightarrow> byte list" where
  \<comment> \<open>HMAC-SHA256 under the key \<open>foo\<close> on the signing strings of the three queries above
      (the first two digests are the \<open>hmac\<close> values of the repository's test); for any
      other input, 32 bytes that no example reads\<close>
  \<open>example_digests key text =
     (if key = utf8 (ascii ''foo'') \<and> text = utf8 (ascii
         ''code=4d732838ad8c22cd1d2dd96f8a403fb7&shop=qux.myshopify.com&state=b77827e928ee8eee614b5808d3276c8a&timestamp=1451929074'')
      then Buffer_from_hex
         (ascii ''3d9b9a7918ac20dfd03b6a0af54a58f0a47980145ae81a37f41597a1e34b528d'')
      else if key = utf8 (ascii ''foo'') \<and> text = utf8 (ascii
         ''corge=grault&quuz=["1", "2"]&shop=qux.myshopify.com&timestamp=1492784493'')
      then Buffer_from_hex
         (ascii ''ffe89c5d47dd26297d47b68e6ad14cf4ee6f11a72b3da7c7a0974d0c3959579a'')
      else if key = utf8 (ascii ''foo'') \<and> text = utf8 (ascii
         ''shop=qux.myshopify.com&timestamp=1451929086'')
      then Buffer_from_hex
         (ascii ''8d711867b1217efe4b1e0937cab0935a1247a5beb41d0920a6ee77dd3b0ca600'')
      else replicate 32 0xFF)\<close>

section \<open>Properties of the authorization URL\<close>

lemma endsWith_append: "endsWith (s @ suf) suf"
  by (simp add: endsWith_def)

lemma shop_hostname_suffixed: "endsWith (shop_hostname shop) myshopify"
  by (simp add: shop_hostname_def endsWith_append)

lemma ascii_simps:
  "ascii [] = []"
  "ascii (c # cs) = word_of_nat (of_char c) # ascii cs"
  by (simp_all add: ascii_def)

lemma shop_hostname_v2_appends_again:
  "shop_hostname_v2 (ascii ''qux.myshopify.com'') = ascii ''qux.myshopify.com.myshopify.com''"
  by (simp add: shop_hostname_v2_def myshopify_def ascii_simps)

text \<open>
  C7. The host of the authorization URL is the shop itself when the shop already ends with
  \<open>.myshopify.com\<close>, and the shop followed by \<open>.myshopify.com\<close> otherwise; the shops
  \<open>qux.myshopify.com\<close> and \<open>qux\<close> give the same host; the suffix is never appended to
  a host that has it (normalising twice changes nothing).
\<close>

theorem generateAuthUrl_host:
  "hostname (generateAuthUrl this fresh shop sc nonce am) =
     (if endsWith shop myshopify then shop else shop @ myshopify)
   \<and> hostname (generateAuthUrl this fresh (ascii ''qux.myshopify.com'') sc nonce am) =
     hostname (generateAuthUrl this fresh' (ascii ''qux'') sc' nonce' am')
   \<and> hostname (generateAuthUrl this fresh (ascii ''qux'') sc nonce am) = ascii ''qux.myshopify.com''
   \<and> hostname (generateAuthUrl this fresh
        (hostname (generateAuthUrl this fresh shop sc nonce am)) sc nonce am) =
     hostname (generateAuthUrl this fresh shop sc nonce am)"
proof -
  have host: "\<And>f s c n a. hostname (generateAuthUrl this f s c n a) = shop_hostname s"
    by (simp add: generateAuthUrl_def Let_def)
  have qux: "shop_hostname (ascii ''qux'') = ascii ''qux.myshopify.com''"
    by (simp add: shop_hostname_def endsWith_def myshopify_def ascii_simps)
  have quxm: "shop_hostname (ascii ''qux.myshopify.com'') = ascii ''qux.myshopify.com''"
    by (simp add: shop_hostname_def endsWith_def myshopify_def ascii_simps)
  have idem: "shop_hostname (shop_hostname shop) = shop_hostname shop"
    using shop_hostname_suffixed [of shop] by (simp add: shop_hostname_def)
  show ?thesis
    by (simp add: host qux quxm idem) (simp add: shop_hostname_def)
qed

section \<open>Properties of the constructor\<close>

text \<open>
  C9, as stated, fails: an option that is present but is the empty string counts as missing.
  With \<open>apiKey: ''\<close> beside a shared secret and a redirect URI the constructor throws.
\<close>

theorem constructor_empty_apiKey_throws:
  "opt_apiKey (test_options\<lparr>opt_apiKey := Some []\<rparr>) \<noteq> None
   \<and> opt_sharedSecret (test_options\<lparr>opt_apiKey := Some []\<rparr>) \<noteq> None
   \<and> opt_redirectUri (test_options\<lparr>opt_apiKey := Some []\<rparr>) \<noteq> None
   \<and> constructor (Some (test_options\<lparr>opt_apiKey := Some []\<rparr>)) =
       Inl (Error ''Missing or invalid options'')"
  by (simp add: constructor_def test_options_def falsy_def)

text \<open>
  C9, amended. The constructor throws when there is no options object and when one of
  \<open>apiKey\<close>, \<open>sharedSecret\<close>, \<open>redirectUri\<close> is missing or empty. When all three are
  present and not empty it returns an instance that holds them, with \<open>scopes\<close>
  \<open>read_content\<close>, \<open>timeout\<close> 60000 and the empty access mode unless the options give
  another value.
\<close>

theorem constructor_required_and_defaults:
  "constructor None = Inl (Error ''Missing or invalid options'')
   \<and> (falsy (opt_apiKey opts) \<or> falsy (opt_sharedSecret opts) \<or> falsy (opt_redirectUri opts)
        \<longrightarrow> constructor (Some opts) = Inl (Error ''Missing or invalid options''))
   \<and> (opt_apiKey opts = Some k \<and> k \<noteq> [] \<and> opt_sharedSecret opts = Some sec \<and> sec \<noteq> []
        \<and> opt_redirectUri opts = Some r \<and> r \<noteq> []
        \<longrightarrow> (\<exists>this. constructor (Some opts) = Inr this
              \<and> apiKey this = k \<and> sharedSecret this = sec \<and> redirectUri this = r
              \<and> agent this = opt_agent opts
              \<and> scopes this = (case opt_scopes opts of None \<Rightarrow> ScopeString (ascii ''read_content'')
                                | Some s \<Rightarrow> s)
              \<and> timeout this = (case opt_timeout opts of None \<Rightarrow> 60000 | Some t \<Rightarrow> t)
              \<and> accessMode this = (case opt_accessMode opts of None \<Rightarrow> [] | Some m \<Rightarrow> m)))"
  by (auto simp: constructor_def falsy_def)

theorem constructor_required_and_defaults_witness:
  "falsy (opt_apiKey (test_options\<lparr>opt_apiKey := None\<rparr>))
   \<and> constructor (Some (test_options\<lparr>opt_apiKey := None\<rparr>)) =
       Inl (Error ''Missing or invalid options'')
   \<and> opt_apiKey test_options = Some (ascii ''baz'') \<and> ascii ''baz'' \<noteq> []
   \<and> opt_sharedSecret test_options = Some (ascii ''foo'') \<and> ascii ''foo'' \<noteq> []
   \<and> opt_redirectUri test_options = Some (ascii ''bar'') \<and> ascii ''bar'' \<noteq> []
   \<and> (\<exists>this. constructor (Some test_options) = Inr this
         \<and> scopes this = ScopeString (ascii ''read_content'')
         \<and> timeout this = 60000 \<and> accessMode this = [])"
  using constructor_required_and_defaults
          [of "test_options\<lparr>opt_apiKey := None\<rparr>" "[]" "[]" "[]"]
        constructor_required_and_defaults
          [of test_options "ascii ''baz''" "ascii ''foo''" "ascii ''bar''"]
  by (auto simp add: test_options_def falsy_def ascii_simps)

section \<open>Properties of the token exchange\<close>

lemma run_append: "run parse (es @ es') s = run parse es' (run parse es s)"
  by (induction es arbitrary: s) simp_all

lemma pending_getAccessToken: "pending getAccessToken"
  by (simp add: pending_def getAccessToken_def)

lemma step_timed_out:
  "timed_out s \<Longrightarrow> timed_out (step parse e s) \<and> calls (step parse e s) = calls s"
  by (cases e)
     (auto simp: timed_out_def on_timeout_def on_response_def on_data_def on_end_def
        on_error_def split: option.splits)

lemma run_timed_out:
  "timed_out s \<Longrightarrow> timed_out (run parse es s) \<and> calls (run parse es s) = calls s"
proof (induction es arbitrary: s)
  case Nil
  then show ?case by simp
next
  case (Cons e es)
  from step_timed_out [OF Cons.prems, of parse e]
  have a: "timed_out (step parse e s)" and b: "calls (step parse e s) = calls s"
    by simp_all
  from Cons.IH [OF a] b show ?case by simp
qed

lemma step_completed:
  "completed s \<Longrightarrow>
     completed (step parse e s) \<and> promise (step parse e s) = promise s"
  by (cases e)
     (auto simp: completed_def promise_def on_timeout_def on_response_def on_data_def
        on_end_def on_error_def reject_def resolve_def clearTimeout_def Let_def
        split: option.splits list.splits)

lemma run_completed:
  "completed s \<Longrightarrow> completed (run parse es s) \<and> promise (run parse es s) = promise s"
proof (induction es arbitrary: s)
  case Nil
  then show ?case by simp
next
  case (Cons e es)
  from step_completed [OF Cons.prems, of parse e]
  have a: "completed (step parse e s)" and b: "promise (step parse e s) = promise s"
    by simp_all
  from Cons.IH [OF a] b show ?case by simp
qed

lemma step_pending:
  "pending s \<Longrightarrow>
     pending (step parse e s) \<or> timed_out (step parse e s) \<or> completed (step parse e s)"
  by (cases e)
     (auto simp: pending_def timed_out_def completed_def on_timeout_def on_response_def
        on_data_def on_end_def on_error_def reject_def resolve_def clearTimeout_def Let_def
        split: option.splits)

lemma run_kinds:
  "pending s \<or> timed_out s \<or> completed s \<Longrightarrow>
     pending (run parse es s) \<or> timed_out (run parse es s) \<or> completed (run parse es s)"
proof (induction es arbitrary: s)
  case Nil
  then show ?case by simp
next
  case (Cons e es)
  have "pending (step parse e s) \<or> timed_out (step parse e s) \<or> completed (step parse e s)"
    using Cons.prems step_pending [of s parse e] step_timed_out [of s parse e]
      step_completed [of s parse e] by blast
  from Cons.IH [OF this] show ?case by simp
qed

lemma reachable_kinds:
  "pending (run parse es getAccessToken) \<or> timed_out (run parse es getAccessToken)
   \<or> completed (run parse es getAccessToken)"
  using run_kinds [of getAccessToken parse es] pending_getAccessToken by blast

lemma step_streaming_pending:
  "pending s \<Longrightarrow> streaming e \<Longrightarrow> pending (step parse e s)"
  by (cases e) (auto simp: pending_def streaming_def on_response_def on_data_def
      split: option.splits)

lemma run_streaming_pending:
  "pending s \<Longrightarrow> \<forall>e\<in>set es. streaming e \<Longrightarrow> pending (run parse es s)"
  by (induction es arbitrary: s) (simp_all add: step_streaming_pending)

lemma on_timeout_pending:
  "pending s \<Longrightarrow> timed_out (on_timeout s)"
  by (simp add: pending_def timed_out_def on_timeout_def reject_def)

lemma run_data:
  "response s = Some (status, body) \<Longrightarrow>
     run parse (map Data chunks) s = s\<lparr>response := Some (status, body @ concat chunks)\<rparr>"
  by (induction chunks arbitrary: s body) (simp_all add: on_data_def)

lemma run_response_end:
  "run parse (Response status # map Data chunks @ End # es') getAccessToken =
     run parse es' (on_end parse
       (getAccessToken\<lparr>response := Some (status, concat chunks)\<rparr> :: 'j exchange))"
proof -
  have "response (on_response status (getAccessToken :: 'j exchange)) = Some (status, [])"
    by (simp add: on_response_def)
  from run_data [OF this, of parse chunks]
  have "run parse (map Data chunks) (on_response status (getAccessToken :: 'j exchange)) =
          getAccessToken\<lparr>response := Some (status, concat chunks)\<rparr>"
    by (simp add: on_response_def)
  then show ?thesis by (simp add: run_append)
qed

lemma completed_after_end:
  "completed (on_end parse (getAccessToken\<lparr>response := Some (status, body)\<rparr>))"
  by (simp add: completed_def on_end_def getAccessToken_def clearTimeout_def reject_def
      resolve_def Let_def split: option.splits)

text \<open>
  C4, as stated, fails: the guard \<open>if (!timer) return\<close> looks at a variable that only the
  timeout sets to \<open>null\<close>; \<open>clearTimeout\<close> leaves it as it is. When the connection
  breaks while the body is arriving, the request's \<open>error\<close> event rejects the promise and
  the response's \<open>end\<close> event follows: its handler passes the guard and calls \<open>reject\<close> a
  second time, here with the error of a body that is not JSON. The same holds for a
  transport error after a completed response.
\<close>

theorem end_after_error_passes_guard:
  "calls (run no_json
       [Response 200, Data (ascii ''{''), RequestError (Error ''read ECONNRESET''), End]
       getAccessToken) =
     [Rejected (Error ''read ECONNRESET''),
      Rejected ((Error ''Failed to parse the response body'')
         \<lparr>statusCode := Some 200, responseBody := Some (ascii ''{'')\<rparr>)]
   \<and> calls (run no_json [Response 400, End, RequestError (Error ''read ECONNRESET'')]
       getAccessToken) =
     [Rejected ((Error ''Failed to get Shopify access token'')
         \<lparr>statusCode := Some 400, responseBody := Some []\<rparr>),
      Rejected (Error ''read ECONNRESET'')]"
  by (simp add: getAccessToken_def on_response_def on_data_def on_end_def on_error_def
      clearTimeout_def reject_def no_json_def)

text \<open>
  C4, amended. In every run the promise is settled by the first call of \<open>resolve\<close> or
  \<open>reject\<close> and keeps that outcome whatever happens later. Once the timeout has run (the
  request is aborted), the handlers of a later response end or transport error return at
  their guard: \<open>reject\<close> has been called once, with the timeout error, and is never called
  again. Once a response end or a transport error has settled the promise, the timeout is
  cleared: its callback never runs and the request is never aborted.
\<close>

theorem first_event_settles:
  "(promise (run parse es getAccessToken) \<noteq> None \<longrightarrow>
      promise (run parse (es @ es') getAccessToken) = promise (run parse es getAccessToken))
   \<and> (aborted (run parse es getAccessToken) \<longrightarrow>
        calls (run parse (es @ es') getAccessToken) = [Rejected (Error ''Request timed out'')]
        \<and> on_end parse (run parse (es @ es') getAccessToken) = run parse (es @ es') getAccessToken
        \<and> on_error err (run parse (es @ es') getAccessToken) = run parse (es @ es') getAccessToken)
   \<and> (promise (run parse es getAccessToken) \<noteq> None \<and> \<not> aborted (run parse es getAccessToken) \<longrightarrow>
        \<not> aborted (run parse (es @ es') getAccessToken)
        \<and> on_timeout (run parse (es @ es') getAccessToken) = run parse (es @ es') getAccessToken)"
proof -
  define s where "s = run parse es getAccessToken"
  define s' where "s' = run parse es' s"
  have s': "run parse (es @ es') getAccessToken = s'"
    by (simp add: s'_def s_def run_append)
  have kinds: "pending s \<or> timed_out s \<or> completed s"
    unfolding s_def by (rule reachable_kinds)
  have once: "promise s' = promise s" if "promise s \<noteq> None"
  proof -
    from that have "\<not> pending s" by (auto simp: pending_def promise_def)
    with kinds consider "timed_out s" | "completed s" by blast
    then show ?thesis
    proof cases
      case 1
      from run_timed_out [OF 1, of parse es'] show ?thesis
        by (simp add: s'_def promise_def)
    next
      case 2
      from run_completed [OF 2, of parse es'] show ?thesis
        by (simp add: s'_def)
    qed
  qed
  have after_timeout:
    "calls s' = [Rejected (Error ''Request timed out'')] \<and> on_end parse s' = s'
       \<and> on_error err s' = s'" if "aborted s"
  proof -
    from that kinds have "timed_out s" by (auto simp: pending_def completed_def)
    from run_timed_out [OF this, of parse es'] have "timed_out s'"
      by (simp add: s'_def)
    then show ?thesis
      by (auto simp: timed_out_def on_end_def on_error_def split: option.splits)
  qed
  have after_completion: "\<not> aborted s' \<and> on_timeout s' = s'"
    if "promise s \<noteq> None" "\<not> aborted s"
  proof -
    from that kinds have "completed s"
      by (auto simp: pending_def timed_out_def promise_def)
    from run_completed [OF this, of parse es'] have "completed s'"
      by (simp add: s'_def)
    then show ?thesis by (simp add: completed_def on_timeout_def)
  qed
  from once after_timeout after_completion show ?thesis
    unfolding s' s_def [symmetric] by blast
qed

theorem first_event_settles_witness:
  "aborted (run no_json [Response 200, Data (ascii ''{''), Timeout] getAccessToken)
   \<and> promise (run no_json [Response 200, Data (ascii ''{''), Timeout] getAccessToken) \<noteq> None
   \<and> calls (run no_json ([Response 200, Data (ascii ''{''), Timeout]
        @ [End, RequestError (Error ''socket hang up'')]) getAccessToken) =
       [Rejected (Error ''Request timed out'')]
   \<and> promise (run no_json [Response 400, End] getAccessToken) \<noteq> None
   \<and> \<not> aborted (run no_json [Response 400, End] getAccessToken)
   \<and> \<not> aborted (run no_json ([Response 400, End] @ [Timeout]) getAccessToken)
   \<and> promise (run no_json ([Response 400, End] @ [Timeout]) getAccessToken) =
       promise (run no_json [Response 400, End] getAccessToken)"
proof -
  have a: "aborted (run no_json [Response 200, Data (ascii ''{''), Timeout] getAccessToken)"
    by (simp add: getAccessToken_def on_response_def on_data_def on_timeout_def reject_def)
  have b: "promise (run no_json [Response 400, End] getAccessToken) \<noteq> None"
    by (simp add: getAccessToken_def on_response_def on_end_def clearTimeout_def reject_def
        promise_def)
  have c: "\<not> aborted (run no_json [Response 400, End] getAccessToken)"
    by (simp add: getAccessToken_def on_response_def on_end_def clearTimeout_def reject_def)
  have d: "promise (run no_json [Response 200, Data (ascii ''{''), Timeout] getAccessToken)
             \<noteq> None"
    by (simp add: getAccessToken_def on_response_def on_data_def on_timeout_def reject_def
        promise_def)
  from a b c d
    first_event_settles [of no_json "[Response 200, Data (ascii ''{''), Timeout]"
      "[End, RequestError (Error ''socket hang up'')]" "Error ''socket hang up''"]
    first_event_settles [of no_json "[Response 400, End]" "[Timeout]" "Error ''socket hang up''"]
  show ?thesis by blast
qed

text \<open>
  C5. A response that completes before the timeout has run and before any transport error:
  the \<open>response\<close> event, any number of \<open>data\<close> events, the \<open>end\<close> event. When the status
  is not 200 the promise is rejected with an error whose \<open>statusCode\<close> is that status and
  whose \<open>responseBody\<close> is the concatenation of the chunks. When the status is 200 and the
  buffered text is not JSON, it is rejected with an error whose \<open>statusCode\<close> is 200 and
  whose \<open>responseBody\<close> is the buffered text. No later event changes the outcome.
\<close>

theorem response_error_carries_status_and_body:
  "(status \<noteq> 200 \<longrightarrow>
      promise (run parse (Response status # map Data chunks @ End # es') getAccessToken) =
        Some (Rejected \<lparr>message = ascii ''Failed to get Shopify access token'',
                statusCode = Some status, responseBody = Some (concat chunks)\<rparr>))
   \<and> (parse (concat chunks) = None \<longrightarrow>
      promise (run parse (Response 200 # map Data chunks @ End # es') getAccessToken) =
        Some (Rejected \<lparr>message = ascii ''Failed to parse the response body'',
                statusCode = Some 200, responseBody = Some (concat chunks)\<rparr>))"
proof -
  have keep: "\<And>st. promise (run parse (Response st # map Data chunks @ End # es')
                 getAccessToken) =
               promise (on_end parse (getAccessToken\<lparr>response := Some (st, concat chunks)\<rparr>))"
    by (simp only: run_response_end run_completed [OF completed_after_end])
  show ?thesis
    unfolding keep
    by (simp add: on_end_def getAccessToken_def clearTimeout_def reject_def promise_def
        Error_def)
qed

theorem response_error_carries_status_and_body_witness:
  "(400::nat) \<noteq> 200
   \<and> promise (run no_json (Response 400 # map Data [ascii ''er'', ascii ''r''] @ End # [Timeout])
        getAccessToken) =
       Some (Rejected \<lparr>message = ascii ''Failed to get Shopify access token'',
               statusCode = Some 400, responseBody = Some (ascii ''err'')\<rparr>)
   \<and> no_json (concat [ascii ''<html>'']) = None
   \<and> promise (run no_json (Response 200 # map Data [ascii ''<html>''] @ End # [])
        getAccessToken) =
       Some (Rejected \<lparr>message = ascii ''Failed to parse the response body'',
               statusCode = Some 200, responseBody = Some (ascii ''<html>'')\<rparr>)"
  using response_error_carries_status_and_body
          [of 400 no_json "[ascii ''er'', ascii ''r'']" "[Timeout]"]
        response_error_carries_status_and_body
          [of 200 no_json "[ascii ''<html>'']" "[]"]
  by (simp add: no_json_def ascii_simps)

text \<open>
  C6. A response with status 200 whose buffered body \<open>JSON.parse\<close> accepts: the promise is
  resolved with the value \<open>JSON.parse\<close> returned, as it is, and no later event changes
  that.
\<close>

theorem ok_response_resolves_with_payload:
  "parse (concat chunks) = Some payload \<Longrightarrow>
     promise (run parse (Response 200 # map Data chunks @ End # es') getAccessToken) =
       Some (Resolved payload)"
proof -
  assume ok: "parse (concat chunks) = Some payload"
  have "promise (run parse (Response 200 # map Data chunks @ End # es') getAccessToken) =
          promise (on_end parse (getAccessToken\<lparr>response := Some (200, concat chunks)\<rparr>))"
    by (simp only: run_response_end run_completed [OF completed_after_end])
  also have "\<dots> = Some (Resolved payload)"
    using ok
    by (simp add: on_end_def getAccessToken_def clearTimeout_def resolve_def promise_def)
  finally show ?thesis .
qed

theorem ok_response_resolves_with_payload_witness:
  "token_json (concat [take 20 token_body, drop 20 token_body]) =
     Some [(ascii ''access_token'', ascii ''T''), (ascii ''scope'', ascii ''read_content'')]
   \<and> promise (run token_json
        (Response 200 # map Data [take 20 token_body, drop 20 token_body] @ End # [Timeout])
        getAccessToken) =
       Some (Resolved [(ascii ''access_token'', ascii ''T''),
                       (ascii ''scope'', ascii ''read_content'')])"
proof -
  have h: "token_json (concat [take 20 token_body, drop 20 token_body]) =
     Some [(ascii ''access_token'', ascii ''T''), (ascii ''scope'', ascii ''read_content'')]"
    by (simp add: token_json_def)
  from h ok_response_resolves_with_payload
           [of token_json "[take 20 token_body, drop 20 token_body]" _ "[Timeout]", OF h]
  show ?thesis by blast
qed

text \<open>
  C8. While the response has not completed (only \<open>response\<close> and \<open>data\<close> events so far),
  the timeout runs: the request is aborted and the promise is rejected with the error
  \<open>Request timed out\<close>, which has no \<open>statusCode\<close> and no \<open>responseBody\<close>; that call of
  \<open>reject\<close> is the only one of the whole run.
\<close>

theorem timeout_aborts_and_rejects:
  "\<forall>e\<in>set es. streaming e \<Longrightarrow>
     aborted (run parse (es @ Timeout # es') getAccessToken)
     \<and> promise (run parse (es @ Timeout # es') getAccessToken) =
         Some (Rejected (Error ''Request timed out''))
     \<and> calls (run parse (es @ Timeout # es') getAccessToken) =
         [Rejected (Error ''Request timed out'')]
     \<and> statusCode (Error ''Request timed out'') = None
     \<and> responseBody (Error ''Request timed out'') = None"
proof -
  assume "\<forall>e\<in>set es. streaming e"
  from run_streaming_pending [OF pending_getAccessToken this]
  have "pending (run parse es getAccessToken)" .
  from run_timed_out [OF on_timeout_pending [OF this], of parse es']
  show ?thesis
    by (simp add: run_append timed_out_def promise_def Error_def)
qed

theorem timeout_aborts_and_rejects_witness:
  "streaming (Response 200) \<and> streaming (Data (ascii ''{''))
   \<and> aborted (run no_json ([Response 200, Data (ascii ''{'')] @ Timeout # [Data (ascii ''}''), End])
        getAccessToken)
   \<and> promise (run no_json ([Response 200, Data (ascii ''{'')] @ Timeout # [Data (ascii ''}''), End])
        getAccessToken) = Some (Rejected (Error ''Request timed out''))"
proof -
  have h: "\<forall>e\<in>set [Response 200, Data (ascii ''{'')]. streaming e"
    by (simp add: streaming_def)
  from h timeout_aborts_and_rejects [OF h, of no_json "[Data (ascii ''}''), End]"]
  show ?thesis by simp
qed

section \<open>Properties of the signature verifier\<close>

lemma xor32_eq_0: "(x XOR y = 0) = (x = y)" for x y :: "32 word"
  by (metis xor.right_neutral xor_self_eq xor.left_commute)

lemma unat_ucast_byte: "unat (ucast x :: 32 word) = unat x" for x :: "8 word"
proof -
  have "unat x < 2 ^ 32"
    using unsigned_less [of x, where 'a = nat] by simp
  then show ?thesis
    by (simp add: unsigned_ucast_eq take_bit_nat_eq_self)
qed

lemma ucast_byte_eq: "((ucast x :: 32 word) = ucast y) = (x = y)" for x y :: "8 word"
  by (metis unat_ucast_byte word_unat_eq_iff)

lemma ucast_byte_0: "((ucast x :: 32 word) = 0) = (x = 0)" for x :: "8 word"
  using ucast_byte_eq [of x 0] by simp

lemma unat_ucast_ascii: "c < 0x80 \<Longrightarrow> unat (ucast c :: 8 word) = unat c" for c :: "16 word"
proof -
  assume "c < 0x80"
  then have "unat c < 128" by (simp add: word_less_nat_alt)
  then have "unat c < 2 ^ 8" by simp
  then show ?thesis
    by (simp add: unsigned_ucast_eq take_bit_nat_eq_self)
qed

lemma ascii_ucast_less:
  "a < 0x80 \<Longrightarrow> b < 0x80 \<Longrightarrow> ((ucast a :: 8 word) < ucast b) = (a < b)" for a b :: "16 word"
  by (simp add: word_less_nat_alt unat_ucast_ascii)

lemma ascii_ucast_eq:
  "a < 0x80 \<Longrightarrow> b < 0x80 \<Longrightarrow> ((ucast a :: 8 word) = ucast b) = (a = b)" for a b :: "16 word"
  by (simp add: word_unat_eq_iff unat_ucast_ascii)

lemma utf8_code_point_ascii: "c < 0x80 \<Longrightarrow> utf8_code_point (unat c) = [ucast c]" for c :: "16 word"
proof -
  assume a: "c < 0x80"
  then have "unat c < 128" by (simp add: word_less_nat_alt)
  moreover have "(of_nat (unat c) :: 8 word) = ucast c"
    by (simp add: word_unat_eq_iff unat_ucast_ascii [OF a] unat_of_nat)
  ultimately show ?thesis by (simp add: utf8_code_point_def)
qed

lemma ascii_not_surrogate: "c < 0x80 \<Longrightarrow> \<not> high_surrogate c \<and> \<not> low_surrogate c" for c :: "16 word"
  by (auto simp: high_surrogate_def low_surrogate_def word_less_nat_alt word_le_nat_alt)

lemma utf8_ascii: "\<forall>c\<in>set s. c < 0x80 \<Longrightarrow> utf8 s = map ucast s"
  by (induction s rule: utf8.induct) (simp_all add: utf8_code_point_ascii ascii_not_surrogate)

lemma ascii_map_less:
  "\<forall>c\<in>set s. c < 0x80 \<Longrightarrow> \<forall>c\<in>set t. c < 0x80 \<Longrightarrow>
     ((map ucast s :: byte list) < map ucast t) = (s < t)" for s t :: jsstring
proof (induction s arbitrary: t)
  case Nil
  then show ?case by (cases t) simp_all
next
  case (Cons a s)
  show ?case
  proof (cases t)
    case Nil
    then show ?thesis by simp
  next
    case (Cons b t')
    with Cons.prems have ab: "a < 0x80" "b < 0x80" by simp_all
    from Cons.prems Cons have "((map ucast s :: byte list) < map ucast t') = (s < t')"
      by (intro Cons.IH) simp_all
    with ab show ?thesis
      by (simp add: Cons ascii_ucast_less ascii_ucast_eq)
  qed
qed

lemma ascii_map_le:
  "\<forall>c\<in>set s. c < 0x80 \<Longrightarrow> \<forall>c\<in>set t. c < 0x80 \<Longrightarrow> s \<le> t \<Longrightarrow>
     (map ucast s :: byte list) \<le> map ucast t" for s t :: jsstring
  using ascii_map_less [of s t] by (auto simp: order_le_less)

lemma sorted_utf8_ascii:
  "\<forall>p\<in>set ps. \<forall>c\<in>set p. c < 0x80 \<Longrightarrow> sorted ps \<Longrightarrow> sorted (map utf8 ps)"
proof (induction ps)
  case Nil
  then show ?case by simp
next
  case (Cons p ps)
  have "utf8 p \<le> utf8 q" if "q \<in> set ps" for q
  proof -
    from that Cons.prems have "p \<le> q" by auto
    moreover from that Cons.prems have "\<forall>c\<in>set p. c < 0x80" "\<forall>c\<in>set q. c < 0x80" by auto
    ultimately show ?thesis by (simp add: utf8_ascii ascii_map_le)
  qed
  with Cons show ?case by auto
qed

lemma or32_eq_0: "(x OR y = 0) = (x = 0 \<and> y = 0)" for x y :: "32 word"
  by (simp add: or_eq_0_iff)

lemma all_from_split:
  "i < n \<Longrightarrow> (\<forall>j. i \<le> j \<and> j < n \<longrightarrow> P j) = (P i \<and> (\<forall>j. Suc i \<le> j \<and> j < n \<longrightarrow> P j))"
  for i n :: nat
proof
  assume "i < n" and a: "\<forall>j. i \<le> j \<and> j < n \<longrightarrow> P j"
  then show "P i \<and> (\<forall>j. Suc i \<le> j \<and> j < n \<longrightarrow> P j)" by auto
next
  assume "i < n" and a: "P i \<and> (\<forall>j. Suc i \<le> j \<and> j < n \<longrightarrow> P j)"
  show "\<forall>j. i \<le> j \<and> j < n \<longrightarrow> P j"
  proof (intro allI impI)
    fix j assume "i \<le> j \<and> j < n"
    then have "j = i \<or> (Suc i \<le> j \<and> j < n)" by arith
    with a show "P j" by blast
  qed
qed

lemma timingSafeEqual_loop_zero:
  "(timingSafeEqual_loop a b i r = 0) =
     (r = 0 \<and> (\<forall>j. i \<le> j \<and> j < length a \<longrightarrow> at a j = at b j))"
proof (induction a b i r rule: timingSafeEqual_loop.induct)
  case (1 a b i r)
  show ?case
  proof (cases "i < length a")
    case True
    have "(timingSafeEqual_loop a b i r = 0) =
          (timingSafeEqual_loop a b (i + 1) (r OR (at a i XOR at b i)) = 0)"
      using True by (subst timingSafeEqual_loop.simps) simp
    also have "\<dots> = (r OR (at a i XOR at b i) = 0
                 \<and> (\<forall>j. i + 1 \<le> j \<and> j < length a \<longrightarrow> at a j = at b j))"
      using "1.IH" [OF True] .
    also have "\<dots> = ((r = 0 \<and> at a i = at b i)
                 \<and> (\<forall>j. Suc i \<le> j \<and> j < length a \<longrightarrow> at a j = at b j))"
      by (simp only: or32_eq_0 xor32_eq_0 Suc_eq_plus1)
    also have "\<dots> = (r = 0 \<and> (\<forall>j. i \<le> j \<and> j < length a \<longrightarrow> at a j = at b j))"
      by (simp only: all_from_split [OF True, where P = "\<lambda>j. at a j = at b j"] conj_assoc)
    finally show ?thesis .
  next
    case False
    then show ?thesis by (subst timingSafeEqual_loop.simps) auto
  qed
qed


lemma timingSafeEqual_iff_at:
  "timingSafeEqual a b = (\<forall>j<length a. at a j = at b j)"
  by (simp add: timingSafeEqual_def timingSafeEqual_loop_zero)

lemma timingSafeEqual_same_length:
  "length a = length b \<Longrightarrow> timingSafeEqual a b = (a = b)"
proof -
  assume len: "length a = length b"
  have "(\<forall>j<length a. at a j = at b j) = (\<forall>j<length a. a ! j = b ! j)"
    using len by (simp add: at_def ucast_byte_eq)
  also have "\<dots> = (a = b)"
    using len by (auto intro: nth_equalityI)
  finally show ?thesis by (simp only: timingSafeEqual_iff_at)
qed

lemma timingSafeEqual_zero_padded:
  "timingSafeEqual a b = (a = take (length a) (b @ replicate (length a - length b) 0))"
proof -
  define p where "p = take (length a) (b @ replicate (length a - length b) 0)"
  have len: "length p = length a" by (simp add: p_def)
  have nth: "p ! j = (if j < length b then b ! j else 0)" if "j < length a" for j
    using that by (simp add: p_def nth_append)
  have "at a j = at b j \<longleftrightarrow> a ! j = p ! j" if "j < length a" for j
    using that by (simp add: nth at_def ucast_byte_eq ucast_byte_0)
  then have "(\<forall>j<length a. at a j = at b j) = (\<forall>j<length a. a ! j = p ! j)"
    by blast
  also have "\<dots> = (a = p)"
    using len by (auto intro: nth_equalityI)
  finally show ?thesis by (simp only: timingSafeEqual_iff_at p_def)
qed

lemma hex_digit_ascii: "unhex c \<noteq> None \<Longrightarrow> c < 0x80"
  by (simp add: unhex_def word_less_nat_alt word_le_nat_alt split: if_splits)

lemma length_Buffer_from_hex:
  "\<forall>c\<in>set h. unhex c \<noteq> None \<Longrightarrow> length (Buffer_from_hex h) = length h div 2"
  by (induction h rule: Buffer_from_hex.induct) auto

lemma byteLength_hex:
  "\<forall>c\<in>set h. unhex c \<noteq> None \<Longrightarrow> Buffer_byteLength h = length h"
  by (simp add: Buffer_byteLength_def utf8_ascii hex_digit_ascii)

lemma verifyHmac_hex64:
  assumes "get obj (ascii ''hmac'') = JString h" "length h = 64" "\<forall>c\<in>set h. unhex c \<noteq> None"
    and "length (createHmac (utf8 (sharedSecret this)) (utf8 (signing_string obj))) = 32"
  shows "verifyHmac createHmac this obj =
           (createHmac (utf8 (sharedSecret this)) (utf8 (signing_string obj)) = Buffer_from_hex h)"
proof -
  from assms(2,3) have "Buffer_byteLength h = 64" "length (Buffer_from_hex h) = 32"
    by (simp_all add: byteLength_hex length_Buffer_from_hex)
  with assms(1,4) show ?thesis
    by (simp add: verifyHmac_def verifyHmac_run_def signing_string_def
        timingSafeEqual_same_length Let_def)
qed

lemma verifyHmac_run_not_string:
  "\<forall>h. get obj (ascii ''hmac'') \<noteq> JString h \<Longrightarrow>
     verifyHmac_run createHmac this obj = (False, [])"
  by (simp add: verifyHmac_run_def split: jsvalue.splits)

lemma verifyHmac_run_wrong_length:
  "get obj (ascii ''hmac'') = JString h \<Longrightarrow> Buffer_byteLength h \<noteq> 64 \<Longrightarrow>
     verifyHmac_run createHmac this obj = (False, [])"
  by (simp add: verifyHmac_run_def)

lemma verifyHmac_run_length_64:
  "get obj (ascii ''hmac'') = JString h \<Longrightarrow> Buffer_byteLength h = 64 \<Longrightarrow>
     verifyHmac_run createHmac this obj =
       (timingSafeEqual (createHmac (utf8 (sharedSecret this)) (utf8 (signing_string obj)))
          (Buffer_from_hex h),
        [(utf8 (sharedSecret this), utf8 (signing_string obj))])"
  by (simp add: verifyHmac_run_def signing_string_def Let_def)

lemma verifyHmac_run_empty_query:
  "verifyHmac_run createHmac this [] = (False, [])"
  by (rule verifyHmac_run_not_string) (simp add: get_def)

lemma replace_append: "replace cls f (s @ t) = replace cls f s @ replace cls f t"
  by (simp add: replace_def)

lemma percent_values:
  "percent 0x25 = ascii ''%25''" "percent 0x26 = ascii ''%26''" "percent 0x3D = ascii ''%3D''"
  by (simp_all add: percent_def ascii_simps)

lemma get_update_other:
  "k \<noteq> key \<Longrightarrow> get (pre @ (key, v) # post) k = get (pre @ (key, w) # post) k"
  by (simp add: get_def map_add_def split: option.splits)

lemma value_text_String: "value_text (JString (value_text v)) = value_text v"
  by (simp add: value_text_def)

lemma pair_text_collide:
  "pair_text (pre @ (key, JArray xs) # post) k =
   pair_text (pre @ (key, JString (value_text (JArray xs))) # post) k"
proof (cases "k = key")
  case True
  have "value_text (get (pre @ (key, JArray xs) # post) key) =
        value_text (get (pre @ (key, JString (value_text (JArray xs))) # post) key)"
    by (simp add: get_def map_add_def value_text_String split: option.splits)
  with True show ?thesis by (simp add: pair_text_def)
next
  case False
  from get_update_other [OF this, where pre = pre and post = post and v = "JArray xs"
      and w = "JString (value_text (JArray xs))"]
  show ?thesis by (simp add: pair_text_def)
qed

lemma signing_pairs_collide:
  "signing_pairs (pre @ (key, JArray xs) # post) =
   signing_pairs (pre @ (key, JString (value_text (JArray xs))) # post)"
proof -
  have "pair_text (pre @ (key, JArray xs) # post) =
        pair_text (pre @ (key, JString (value_text (JArray xs))) # post)"
    by (rule ext) (rule pair_text_collide)
  moreover have "Object_keys (pre @ (key, JArray xs) # post) =
        Object_keys (pre @ (key, JString (value_text (JArray xs))) # post)"
    by (simp add: Object_keys_def)
  ultimately show ?thesis by (simp only: signing_pairs_def)
qed

lemma sort_mset_eq: "mset xs = mset ys \<Longrightarrow> sort xs = sort ys" for xs :: "'a::linorder list"
  by (rule properties_for_sort) simp_all

lemmas signing_defs =
  signing_string_def signing_pairs_def Object_keys_def pair_text_def get_def encodeKey_def
  encodeValue_def replace_def value_text_def array_join_def number_text_def ascii_simps

lemma signing_string_authentic_query:
  "signing_string authentic_query = ascii
     ''code=4d732838ad8c22cd1d2dd96f8a403fb7&shop=qux.myshopify.com&state=b77827e928ee8eee614b5808d3276c8a&timestamp=1451929074''"
  by (simp add: authentic_query_def signing_defs)

lemma signing_string_array_query:
  \<open>signing_string (array_query (JArray [JNumber 1, JNumber 2])) = ascii
     ''corge=grault&quuz=["1", "2"]&shop=qux.myshopify.com&timestamp=1492784493''\<close>
  by (simp add: array_query_def signing_defs decimal.simps)

lemma signing_string_truncated_query:
  "signing_string truncated_query = ascii ''shop=qux.myshopify.com&timestamp=1451929086''"
  by (simp add: truncated_query_def signing_defs)

lemma unhex_values:
  "unhex 0x30 = Some 0" "unhex 0x31 = Some 1" "unhex 0x32 = Some 2" "unhex 0x33 = Some 3"
  "unhex 0x34 = Some 4" "unhex 0x35 = Some 5" "unhex 0x36 = Some 6" "unhex 0x37 = Some 7"
  "unhex 0x38 = Some 8" "unhex 0x39 = Some 9" "unhex 0x61 = Some 10" "unhex 0x62 = Some 11"
  "unhex 0x63 = Some 12" "unhex 0x64 = Some 13" "unhex 0x65 = Some 14" "unhex 0x66 = Some 15"
  "unhex 0x7A = None"
  by (simp_all add: unhex_def)

lemma digest_truncated:
  "Buffer_from_hex (ascii ''8d711867b1217efe4b1e0937cab0935a1247a5beb41d0920a6ee77dd3b0ca600'') =
     [0x8d, 0x71, 0x18, 0x67, 0xb1, 0x21, 0x7e, 0xfe, 0x4b, 0x1e, 0x09, 0x37, 0xca, 0xb0, 0x93,
      0x5a, 0x12, 0x47, 0xa5, 0xbe, 0xb4, 0x1d, 0x09, 0x20, 0xa6, 0xee, 0x77, 0xdd, 0x3b, 0x0c,
      0xa6, 0x00]"
  "Buffer_from_hex (ascii ''8d711867b1217efe4b1e0937cab0935a1247a5beb41d0920a6ee77dd3b0ca6zz'') =
     [0x8d, 0x71, 0x18, 0x67, 0xb1, 0x21, 0x7e, 0xfe, 0x4b, 0x1e, 0x09, 0x37, 0xca, 0xb0, 0x93,
      0x5a, 0x12, 0x47, 0xa5, 0xbe, 0xb4, 0x1d, 0x09, 0x20, 0xa6, 0xee, 0x77, 0xdd, 0x3b, 0x0c,
      0xa6]"
  by (simp_all add: ascii_simps unhex_values)


lemma byteLength_ascii: "\<forall>c\<in>set s. c < 0x80 \<Longrightarrow> Buffer_byteLength s = length s"
  by (simp add: Buffer_byteLength_def utf8_ascii)

text \<open>
  C2, at an input of the library: the digest of \<open>truncated_query\<close> (32 bytes, the last one
  0) against the 31 bytes that \<open>Buffer.from\<close> decodes from its \<open>hmac\<close>. The buffers
  differ in length and \<open>timingSafeEqual\<close> returns \<open>true\<close>: it runs over the length of
  its first argument and reads the missing byte of the second as 0. The same happens for a
  longer second argument, as for the buffers \<open>[1]\<close> and \<open>[1, 2]\<close>.
\<close>

theorem timingSafeEqual_accepts_other_length:
  "length (Buffer_from_hex
      (ascii ''8d711867b1217efe4b1e0937cab0935a1247a5beb41d0920a6ee77dd3b0ca600'')) = 32
   \<and> length (Buffer_from_hex
      (ascii ''8d711867b1217efe4b1e0937cab0935a1247a5beb41d0920a6ee77dd3b0ca6zz'')) = 31
   \<and> timingSafeEqual
        (Buffer_from_hex
          (ascii ''8d711867b1217efe4b1e0937cab0935a1247a5beb41d0920a6ee77dd3b0ca600''))
        (Buffer_from_hex
          (ascii ''8d711867b1217efe4b1e0937cab0935a1247a5beb41d0920a6ee77dd3b0ca6zz''))
   \<and> timingSafeEqual [1] [1, 2]"
  by (simp add: digest_truncated timingSafeEqual_zero_padded)

text \<open>
  C3, at an input of the library: the \<open>hmac\<close> of \<open>truncated_query\<close> has 64 characters
  and ends in \<open>zz\<close>. \<open>verifyHmac\<close> does not reject it before the HMAC computation: it
  computes the digest of the signing string and returns \<open>true\<close>.
\<close>

theorem verifyHmac_accepts_hmac_that_is_not_hex:
  "get truncated_query (ascii ''hmac'') =
     JString (ascii ''8d711867b1217efe4b1e0937cab0935a1247a5beb41d0920a6ee77dd3b0ca6zz'')
   \<and> unhex (last (ascii ''8d711867b1217efe4b1e0937cab0935a1247a5beb41d0920a6ee77dd3b0ca6zz''))
       = None
   \<and> verifyHmac_run example_digests test_instance truncated_query =
       (True, [(utf8 (ascii ''foo''),
                utf8 (ascii ''shop=qux.myshopify.com&timestamp=1451929086''))])"
proof -
  have hmac: "get truncated_query (ascii ''hmac'') =
     JString (ascii ''8d711867b1217efe4b1e0937cab0935a1247a5beb41d0920a6ee77dd3b0ca6zz'')"
    by (simp add: truncated_query_def get_def ascii_simps)
  have len: "Buffer_byteLength
     (ascii ''8d711867b1217efe4b1e0937cab0935a1247a5beb41d0920a6ee77dd3b0ca6zz'') = 64"
    by (subst byteLength_ascii) (simp_all add: ascii_simps)
  have digest: "example_digests (utf8 (ascii ''foo''))
       (utf8 (ascii ''shop=qux.myshopify.com&timestamp=1451929086'')) =
     Buffer_from_hex
       (ascii ''8d711867b1217efe4b1e0937cab0935a1247a5beb41d0920a6ee77dd3b0ca600'')"
    by (simp add: example_digests_def ascii_simps high_surrogate_def low_surrogate_def
        utf8_code_point_def)
  have "verifyHmac_run example_digests test_instance truncated_query =
       (True, [(utf8 (ascii ''foo''),
                utf8 (ascii ''shop=qux.myshopify.com&timestamp=1451929086''))])"
    unfolding verifyHmac_run_length_64 [OF hmac len] signing_string_truncated_query
    by (simp add: test_instance_def digest digest_truncated timingSafeEqual_zero_padded)
  with hmac show ?thesis by (simp add: ascii_simps unhex_values)
qed


text \<open>
  Whatever the platform's HMAC is, as long as its digests have 32 bytes: on
  \<open>truncated_query\<close> the digest is computed, and the result is \<open>true\<close> exactly when the
  digest is the 31 decoded bytes followed by a zero byte.
\<close>

lemma verifyHmac_run_truncated_query:
  assumes "length (createHmac (utf8 (ascii ''foo''))
             (utf8 (ascii ''shop=qux.myshopify.com&timestamp=1451929086''))) = 32"
  shows "verifyHmac_run createHmac test_instance truncated_query =
     (createHmac (utf8 (ascii ''foo''))
          (utf8 (ascii ''shop=qux.myshopify.com&timestamp=1451929086'')) =
        [0x8d, 0x71, 0x18, 0x67, 0xb1, 0x21, 0x7e, 0xfe, 0x4b, 0x1e, 0x09, 0x37, 0xca, 0xb0,
         0x93, 0x5a, 0x12, 0x47, 0xa5, 0xbe, 0xb4, 0x1d, 0x09, 0x20, 0xa6, 0xee, 0x77, 0xdd,
         0x3b, 0x0c, 0xa6, 0x00],
      [(utf8 (ascii ''foo''), utf8 (ascii ''shop=qux.myshopify.com&timestamp=1451929086''))])"
proof -
  have hmac: "get truncated_query (ascii ''hmac'') =
     JString (ascii ''8d711867b1217efe4b1e0937cab0935a1247a5beb41d0920a6ee77dd3b0ca6zz'')"
    by (simp add: truncated_query_def get_def ascii_simps)
  have len: "Buffer_byteLength
     (ascii ''8d711867b1217efe4b1e0937cab0935a1247a5beb41d0920a6ee77dd3b0ca6zz'') = 64"
    by (subst byteLength_ascii) (simp_all add: ascii_simps)
  have secret: "sharedSecret test_instance = ascii ''foo''"
    by (simp add: test_instance_def)
  show ?thesis
    unfolding verifyHmac_run_length_64 [OF hmac len] signing_string_truncated_query secret
      timingSafeEqual_zero_padded digest_truncated assms
    by simp
qed

text \<open>The revision before returns \<open>false\<close> on that query.\<close>

lemma verifyHmac_v2_rejects_truncated_query:
  "\<not> verifyHmac_v2 example_digests test_instance truncated_query"
proof -
  have digest: "example_digests (utf8 (ascii ''foo''))
       (utf8 (ascii ''shop=qux.myshopify.com&timestamp=1451929086'')) =
     Buffer_from_hex
       (ascii ''8d711867b1217efe4b1e0937cab0935a1247a5beb41d0920a6ee77dd3b0ca600'')"
    by (simp add: example_digests_def ascii_simps high_surrogate_def low_surrogate_def
        utf8_code_point_def)
  have "last (hex_text (Buffer_from_hex
       (ascii ''8d711867b1217efe4b1e0937cab0935a1247a5beb41d0920a6ee77dd3b0ca600''))) = 0x30"
    unfolding digest_truncated by (simp add: hex_text_def)
  moreover have "last
       (ascii ''8d711867b1217efe4b1e0937cab0935a1247a5beb41d0920a6ee77dd3b0ca6zz'') = 0x7A"
    by (simp add: ascii_simps)
  ultimately have "last (hex_text (Buffer_from_hex
       (ascii ''8d711867b1217efe4b1e0937cab0935a1247a5beb41d0920a6ee77dd3b0ca600''))) \<noteq>
     last (ascii ''8d711867b1217efe4b1e0937cab0935a1247a5beb41d0920a6ee77dd3b0ca6zz'')"
    by (simp only:) simp
  then have "hex_text (Buffer_from_hex
       (ascii ''8d711867b1217efe4b1e0937cab0935a1247a5beb41d0920a6ee77dd3b0ca600'')) \<noteq>
     ascii ''8d711867b1217efe4b1e0937cab0935a1247a5beb41d0920a6ee77dd3b0ca6zz''"
    by (rule contrapos_nn) (rule arg_cong [where f = last])
  moreover have "sharedSecret test_instance = ascii ''foo''"
    by (simp add: test_instance_def)
  moreover have "get truncated_query (ascii ''hmac'') =
     JString (ascii ''8d711867b1217efe4b1e0937cab0935a1247a5beb41d0920a6ee77dd3b0ca6zz'')"
    by (simp add: truncated_query_def get_def ascii_simps)
  ultimately show ?thesis
    by (simp only: verifyHmac_v2_def signing_string_truncated_query digest jsvalue.inject
        not_False_eq_True)
qed

lemma example_digest_authentic:
  "example_digests (utf8 (ascii ''foo'')) (utf8 (signing_string authentic_query)) =
     Buffer_from_hex (ascii ''3d9b9a7918ac20dfd03b6a0af54a58f0a47980145ae81a37f41597a1e34b528d'')"
  by (simp add: example_digests_def signing_string_authentic_query)

lemma example_digest_array:
  "example_digests (utf8 (ascii ''foo''))
       (utf8 (signing_string (array_query (JArray [JNumber 1, JNumber 2])))) =
     Buffer_from_hex (ascii ''ffe89c5d47dd26297d47b68e6ad14cf4ee6f11a72b3da7c7a0974d0c3959579a'')"
  unfolding signing_string_array_query
  by (simp add: example_digests_def ascii_simps high_surrogate_def low_surrogate_def
        utf8_code_point_def)

lemma hex64_authentic:
  "length (ascii ''3d9b9a7918ac20dfd03b6a0af54a58f0a47980145ae81a37f41597a1e34b528d'') = 64"
  "\<forall>c\<in>set (ascii ''3d9b9a7918ac20dfd03b6a0af54a58f0a47980145ae81a37f41597a1e34b528d'').
     unhex c \<noteq> None"
  by (simp_all add: ascii_simps unhex_values)

lemma hex64_array:
  "length (ascii ''ffe89c5d47dd26297d47b68e6ad14cf4ee6f11a72b3da7c7a0974d0c3959579a'') = 64"
  "\<forall>c\<in>set (ascii ''ffe89c5d47dd26297d47b68e6ad14cf4ee6f11a72b3da7c7a0974d0c3959579a'').
     unhex c \<noteq> None"
  by (simp_all add: ascii_simps unhex_values)

lemma verifyHmac_array_query:
  "verifyHmac example_digests test_instance (array_query (JArray [JNumber 1, JNumber 2]))"
proof -
  have hmac: "get (array_query (JArray [JNumber 1, JNumber 2])) (ascii ''hmac'') = JString
      (ascii ''ffe89c5d47dd26297d47b68e6ad14cf4ee6f11a72b3da7c7a0974d0c3959579a'')"
    by (simp add: array_query_def get_def ascii_simps)
  have secret: "sharedSecret test_instance = ascii ''foo''"
    by (simp add: test_instance_def)
  have len: "length (example_digests (utf8 (sharedSecret test_instance))
      (utf8 (signing_string (array_query (JArray [JNumber 1, JNumber 2]))))) = 32"
    unfolding secret example_digest_array
    by (simp add: length_Buffer_from_hex [OF hex64_array(2)] hex64_array(1))
  show ?thesis
    unfolding verifyHmac_hex64 [where createHmac = example_digests and this = test_instance,
        OF hmac hex64_array len] secret example_digest_array ..
qed

text \<open>
  C10. A key other than \<open>hmac\<close> whose value is an array, and the same key with the text
  \<open>["...", "..."]\<close> of that array as a plain string: the two queries differ, their signing
  strings are the same, and \<open>verifyHmac\<close> returns the same result for both, whatever the
  secret and the digests. For the one-element array \<open>["x"]\<close> the text is \<open>["x"]\<close>.
\<close>

theorem array_collides_with_its_text:
  \<open>key \<noteq> ascii ''hmac'' \<Longrightarrow>
     pre @ (key, JArray xs) # post \<noteq> pre @ (key, JString (value_text (JArray xs))) # post
     \<and> value_text (JArray [JString x]) = ascii ''["'' @ x @ ascii ''"]''
     \<and> signing_string (pre @ (key, JArray xs) # post) =
         signing_string (pre @ (key, JString (value_text (JArray xs))) # post)
     \<and> verifyHmac createHmac this (pre @ (key, JArray xs) # post) =
         verifyHmac createHmac this (pre @ (key, JString (value_text (JArray xs))) # post)\<close>
proof -
  assume key: "key \<noteq> ascii ''hmac''"
  have differ:
    "pre @ (key, JArray xs) # post \<noteq> pre @ (key, JString (value_text (JArray xs))) # post"
    by simp
  have one: \<open>value_text (JArray [JString x]) = ascii ''["'' @ x @ ascii ''"]''\<close>
    by (simp add: value_text_def array_join_def)
  have hmac: "get (pre @ (key, JArray xs) # post) (ascii ''hmac'') =
              get (pre @ (key, JString (value_text (JArray xs))) # post) (ascii ''hmac'')"
    using key by (intro get_update_other) simp
  have run: "verifyHmac_run createHmac this (pre @ (key, JArray xs) # post) =
             verifyHmac_run createHmac this
               (pre @ (key, JString (value_text (JArray xs))) # post)"
    by (simp only: verifyHmac_run_def signing_pairs_collide hmac)
  from differ one run show ?thesis
    by (simp only: signing_string_def signing_pairs_collide verifyHmac_def simp_thms)
qed

theorem array_collides_with_its_text_witness:
  \<open>ascii ''quuz'' \<noteq> ascii ''hmac''
   \<and> array_query (JArray [JNumber 1, JNumber 2]) \<noteq> array_query (JString (ascii ''["1", "2"]''))
   \<and> signing_string (array_query (JString (ascii ''["1", "2"]''))) =
       ascii ''corge=grault&quuz=["1", "2"]&shop=qux.myshopify.com&timestamp=1492784493''
   \<and> verifyHmac example_digests test_instance (array_query (JArray [JNumber 1, JNumber 2]))
   \<and> verifyHmac example_digests test_instance (array_query (JString (ascii ''["1", "2"]'')))\<close>
proof -
  have key: "ascii ''quuz'' \<noteq> ascii ''hmac''"
    by (simp add: ascii_simps)
  have quuz: \<open>value_text (JArray [JNumber 1, JNumber 2]) = ascii ''["1", "2"]''\<close>
    by (simp add: value_text_def array_join_def number_text_def decimal.simps ascii_simps)
  from array_collides_with_its_text [OF key, where xs = "[JNumber 1, JNumber 2]"
      and createHmac = example_digests and this = test_instance
      and pre = "[(ascii ''hmac'',
         JString (ascii ''ffe89c5d47dd26297d47b68e6ad14cf4ee6f11a72b3da7c7a0974d0c3959579a'')),
      (ascii ''shop'', JString (ascii ''qux.myshopify.com'')),
      (ascii ''timestamp'', JString (ascii ''1492784493''))]"
      and post = "[(ascii ''corge'', JString (ascii ''grault''))]"]
  have \<open>array_query (JArray [JNumber 1, JNumber 2]) \<noteq> array_query (JString (ascii ''["1", "2"]''))\<close>
    and \<open>signing_string (array_query (JArray [JNumber 1, JNumber 2])) =
         signing_string (array_query (JString (ascii ''["1", "2"]'')))\<close>
    and \<open>verifyHmac example_digests test_instance (array_query (JArray [JNumber 1, JNumber 2])) =
         verifyHmac example_digests test_instance (array_query (JString (ascii ''["1", "2"]'')))\<close>
    unfolding quuz array_query_def by blast+
  with key verifyHmac_array_query signing_string_array_query show ?thesis by simp
qed

lemma signing_pairs_authentic_query:
  "signing_pairs authentic_query =
     [ascii ''code=4d732838ad8c22cd1d2dd96f8a403fb7'', ascii ''shop=qux.myshopify.com'',
      ascii ''state=b77827e928ee8eee614b5808d3276c8a'', ascii ''timestamp=1451929074'']"
  by (simp add: authentic_query_def signing_defs)

lemma encode_single:
  "encodeKey [c] = (if c = 0x25 then ascii ''%25'' else if c = 0x26 then ascii ''%26''
                    else if c = 0x3D then ascii ''%3D'' else [c])"
  "encodeValue [c] = (if c = 0x25 then ascii ''%25'' else if c = 0x26 then ascii ''%26''
                      else [c])"
  by (simp_all add: encodeKey_def encodeValue_def replace_def percent_values)

lemma sorted_signing_pairs: "sorted (signing_pairs obj)"
  by (simp add: signing_pairs_def)

lemma mset_signing_pairs:
  "mset (signing_pairs obj) =
     mset (map (\<lambda>key. encodeKey key @ ascii ''='' @ encodeValue (value_text (get obj key)))
       (filter (\<lambda>key. key \<noteq> ascii ''hmac'' \<and> key \<noteq> ascii ''signature'') (Object_keys obj)))"
proof -
  have "(\<lambda>key. key \<noteq> ascii ''signature'' \<and> key \<noteq> ascii ''hmac'') =
        (\<lambda>key. key \<noteq> ascii ''hmac'' \<and> key \<noteq> ascii ''signature'')"
    by auto
  moreover have "pair_text obj =
        (\<lambda>key. encodeKey key @ ascii ''='' @ encodeValue (value_text (get obj key)))"
    by (rule ext) (simp add: pair_text_def)
  ultimately show ?thesis
    by (simp only: signing_pairs_def mset_sort)
qed

text \<open>
  The signing string does not depend on the order in which the query object lists its
  keys.
\<close>

lemma signing_string_order_independent:
  assumes "distinct (map fst obj)" and "mset obj' = mset obj"
  shows "signing_string obj' = signing_string obj"
proof -
  from assms(2) have "mset (map fst obj') = mset (map fst obj)" by simp
  with assms(1) have "distinct (map fst obj')"
    by (metis mset_eq_imp_distinct_iff)
  moreover from assms(2) have "set obj' = set obj" by (rule mset_eq_setD)
  ultimately have "map_of obj' = map_of obj"
    using assms(1) by (simp add: map_of_inject_set)
  then have "pair_text obj' = pair_text obj"
    by (intro ext) (simp add: pair_text_def get_def)
  moreover from assms(2) have "mset (Object_keys obj') = mset (Object_keys obj)"
    by (simp add: Object_keys_def)
  ultimately have "mset (map (pair_text obj')
        (filter (\<lambda>key. key \<noteq> ascii ''signature'' \<and> key \<noteq> ascii ''hmac'') (Object_keys obj'))) =
      mset (map (pair_text obj)
        (filter (\<lambda>key. key \<noteq> ascii ''signature'' \<and> key \<noteq> ascii ''hmac'') (Object_keys obj)))"
    by simp
  then have "signing_pairs obj' = signing_pairs obj"
    unfolding signing_pairs_def by (rule sort_mset_eq)
  then show ?thesis
    by (simp only: signing_string_def)
qed

text \<open>
  C1, as stated, fails: the pairs are sorted by the default \<open>sort\<close> of JavaScript, which
  compares UTF-16 code units, not bytes. The key U+1F600 is the surrogate pair D83D DE00 and
  sorts before the key U+FF5E; in UTF-8, the bytes that are signed, F0 9F 98 80 sorts after
  EF BD 9E.
\<close>

theorem signing_pairs_not_in_byte_order:
  "signing_pairs astral_query = [[0xD83D, 0xDE00, 0x3D, 0x61], [0xFF5E, 0x3D, 0x62]]
   \<and> map utf8 (signing_pairs astral_query) =
       [[0xF0, 0x9F, 0x98, 0x80, 0x3D, 0x61], [0xEF, 0xBD, 0x9E, 0x3D, 0x62]]
   \<and> \<not> sorted (map utf8 (signing_pairs astral_query))"
proof -
  have pairs: "signing_pairs astral_query = [[0xD83D, 0xDE00, 0x3D, 0x61], [0xFF5E, 0x3D, 0x62]]"
    by (simp add: astral_query_def signing_defs)
  have bytes: "map utf8 [[0xD83D, 0xDE00, 0x3D, 0x61], [0xFF5E, 0x3D, 0x62 :: 16 word]] =
       [[0xF0, 0x9F, 0x98, 0x80, 0x3D, 0x61], [0xEF, 0xBD, 0x9E, 0x3D, 0x62]]"
    by (simp add: high_surrogate_def low_surrogate_def utf8_code_point_def)
  show ?thesis
    unfolding pairs bytes by simp
qed


text \<open>
  C1, amended. \<open>verifyHmac\<close> signs the string made as follows: every key of the query
  except \<open>hmac\<close> and \<open>signature\<close>, each as the pair \<open>encodeKey(key)=encodeValue(value)\<close>,
  the pairs sorted in ascending order of UTF-16 code units and joined with \<open>&\<close>.
  \<open>encodeKey\<close> replaces \<open>%\<close>, \<open>&\<close>, \<open>=\<close> by \<open>%25\<close>, \<open>%26\<close>, \<open>%3D\<close> and leaves every other
  character; \<open>encodeValue\<close> replaces \<open>%\<close> and \<open>&\<close> only. A string value is taken as it
  is, another scalar as its text. When all pairs are ASCII the order is the byte-wise
  order of the UTF-8 text. When the supplied \<open>hmac\<close> is a string of exactly 64 hexadecimal
  characters, \<open>verifyHmac\<close> returns \<open>true\<close> exactly when the 32-byte digest of the signing
  string under the shared secret is the supplied digest. (For a 64-character \<open>hmac\<close> that
  is not hexadecimal, see C3.)
\<close>

theorem verifyHmac_signing_string:
  "sorted (signing_pairs obj)
   \<and> mset (signing_pairs obj) =
       mset (map (\<lambda>key. encodeKey key @ ascii ''='' @ encodeValue (value_text (get obj key)))
         (filter (\<lambda>key. key \<noteq> ascii ''hmac'' \<and> key \<noteq> ascii ''signature'') (Object_keys obj)))
   \<and> signing_string obj = join (ascii ''&'') (signing_pairs obj)
   \<and> encodeKey (s @ t) = encodeKey s @ encodeKey t
   \<and> encodeKey [c] = (if c = 0x25 then ascii ''%25'' else if c = 0x26 then ascii ''%26''
                       else if c = 0x3D then ascii ''%3D'' else [c])
   \<and> encodeValue (s @ t) = encodeValue s @ encodeValue t
   \<and> encodeValue [c] = (if c = 0x25 then ascii ''%25'' else if c = 0x26 then ascii ''%26''
                         else [c])
   \<and> value_text (JString s) = s
   \<and> value_text (JNumber i) = number_text i
   \<and> value_text (JBoolean b) = (if b then ascii ''true'' else ascii ''false'')
   \<and> value_text JNull = ascii ''null''
   \<and> value_text JUndefined = ascii ''undefined''
   \<and> ((\<forall>p\<in>set (signing_pairs obj). \<forall>c\<in>set p. c < 0x80) \<longrightarrow>
         sorted (map utf8 (signing_pairs obj)))
   \<and> (get obj (ascii ''hmac'') = JString hmac \<and> length hmac = 64
        \<and> (\<forall>c\<in>set hmac. unhex c \<noteq> None)
        \<and> length (createHmac (utf8 (sharedSecret this)) (utf8 (signing_string obj))) = 32 \<longrightarrow>
         verifyHmac createHmac this obj =
           (createHmac (utf8 (sharedSecret this)) (utf8 (signing_string obj)) =
            Buffer_from_hex hmac))"
proof -
  have enc: "encodeKey (s @ t) = encodeKey s @ encodeKey t"
      "encodeValue (s @ t) = encodeValue s @ encodeValue t"
    by (simp_all add: encodeKey_def encodeValue_def replace_append)
  have scalars: "value_text (JString s) = s" "value_text (JNumber i) = number_text i"
      "value_text (JBoolean b) = (if b then ascii ''true'' else ascii ''false'')"
      "value_text JNull = ascii ''null''" "value_text JUndefined = ascii ''undefined''"
    by (simp_all add: value_text_def)
  have bytes: "sorted (map utf8 (signing_pairs obj))"
    if "\<forall>p\<in>set (signing_pairs obj). \<forall>c\<in>set p. c < 0x80"
    using that sorted_signing_pairs by (rule sorted_utf8_ascii)
  have verify: "verifyHmac createHmac this obj =
           (createHmac (utf8 (sharedSecret this)) (utf8 (signing_string obj)) =
            Buffer_from_hex hmac)"
    if "get obj (ascii ''hmac'') = JString hmac" "length hmac = 64"
      "\<forall>c\<in>set hmac. unhex c \<noteq> None"
      "length (createHmac (utf8 (sharedSecret this)) (utf8 (signing_string obj))) = 32"
    using that by (rule verifyHmac_hex64)
  from sorted_signing_pairs [of obj] mset_signing_pairs [of obj] enc scalars bytes verify
    encode_single [of c]
  show ?thesis
    by (simp only: signing_string_def simp_thms) blast
qed

theorem verifyHmac_signing_string_witness:
  "signing_pairs authentic_query =
     [ascii ''code=4d732838ad8c22cd1d2dd96f8a403fb7'', ascii ''shop=qux.myshopify.com'',
      ascii ''state=b77827e928ee8eee614b5808d3276c8a'', ascii ''timestamp=1451929074'']
   \<and> sorted (map utf8 (signing_pairs authentic_query))
   \<and> get authentic_query (ascii ''hmac'') =
       JString (ascii ''3d9b9a7918ac20dfd03b6a0af54a58f0a47980145ae81a37f41597a1e34b528d'')
   \<and> length (ascii ''3d9b9a7918ac20dfd03b6a0af54a58f0a47980145ae81a37f41597a1e34b528d'') = 64
   \<and> length (example_digests (utf8 (sharedSecret test_instance))
        (utf8 (signing_string authentic_query))) = 32
   \<and> verifyHmac example_digests test_instance authentic_query"
proof -
  have ascii_pairs: "\<forall>p\<in>set (signing_pairs authentic_query). \<forall>c\<in>set p. c < 0x80"
    unfolding signing_pairs_authentic_query by (simp add: ascii_simps)
  have hmac: "get authentic_query (ascii ''hmac'') =
       JString (ascii ''3d9b9a7918ac20dfd03b6a0af54a58f0a47980145ae81a37f41597a1e34b528d'')"
    by (simp add: authentic_query_def get_def ascii_simps)
  have secret: "sharedSecret test_instance = ascii ''foo''"
    by (simp add: test_instance_def)
  have len: "length (example_digests (utf8 (sharedSecret test_instance))
        (utf8 (signing_string authentic_query))) = 32"
    unfolding secret example_digest_authentic
    by (simp add: length_Buffer_from_hex [OF hex64_authentic(2)] hex64_authentic(1))
  have digest: "example_digests (utf8 (sharedSecret test_instance))
        (utf8 (signing_string authentic_query)) =
      Buffer_from_hex
        (ascii ''3d9b9a7918ac20dfd03b6a0af54a58f0a47980145ae81a37f41597a1e34b528d'')"
    unfolding secret by (rule example_digest_authentic)
  from verifyHmac_signing_string [where obj = authentic_query and this = test_instance
      and createHmac = example_digests
      and hmac = "ascii ''3d9b9a7918ac20dfd03b6a0af54a58f0a47980145ae81a37f41597a1e34b528d''"]
    ascii_pairs hmac hex64_authentic len digest
  have "sorted (map utf8 (signing_pairs authentic_query))"
    and "verifyHmac example_digests test_instance authentic_query"
    by blast+
  with signing_pairs_authentic_query hmac hex64_authentic(1) len show ?thesis
    by blast
qed

end
